theory Spec2Isabelle
  imports Main "HOL-Library.Word" "HOL-Library.Signed_Division"
begin

unbundle bit_operations_syntax

section \<open>File locks of package fslock: the errors\<close>

text \<open>
  Go's \<^verbatim>\<open>uintptr\<close> (on a 64-bit target); \<^verbatim>\<open>syscall.Errno\<close> and
  \<^verbatim>\<open>syscall.Handle\<close> are both \<^verbatim>\<open>uintptr\<close>.
\<close>

type_synonym uintptr = "64 word"

text \<open>\<^verbatim>\<open>type timeoutError string\<close> with its two methods.\<close>

datatype timeoutError = TimeoutError string

fun Error :: "timeoutError \<Rightarrow> string" where
  "Error (TimeoutError t) = t"


text \<open>
  The dynamic values an \<^verbatim>\<open>error\<close> returned by this package can hold: a
  \<^verbatim>\<open>timeoutError\<close> or a \<^verbatim>\<open>syscall.Errno\<close>. Go compares two interface values
  by dynamic type and then by value, which is the equality of this datatype.
  A nil error is \<open>None\<close> of \<open>error option\<close>.
\<close>

datatype error = ErrorTimeout timeoutError | Errno uintptr

definition ErrTimeout :: error where
  "ErrTimeout = ErrorTimeout (TimeoutError ''lock timeout exceeded'')"

section \<open>Time\<close>

text \<open>
  \<^verbatim>\<open>time.Time\<close> as the nanoseconds since the zero Time, \<^verbatim>\<open>time.Duration\<close> as
  nanoseconds (an int64). \<^verbatim>\<open>Time.Sub\<close> saturates at the largest and smallest Duration.
\<close>

type_synonym Time = int
type_synonym Duration = int

definition Millisecond :: Duration where
  "Millisecond = 1000000"

definition maxDuration :: Duration where
  "maxDuration = 2 ^ 63 - 1"

definition minDuration :: Duration where
  "minDuration = - (2 ^ 63)"

definition IsZero :: "Time \<Rightarrow> bool" where
  "IsZero t = (t = 0)"

definition Sub :: "Time \<Rightarrow> Time \<Rightarrow> Duration" where
  "Sub t u = (if t - u > maxDuration then maxDuration
              else if t - u < minDuration then minDuration
              else t - u)"

definition Nanoseconds :: "Duration \<Rightarrow> int" where
  "Nanoseconds d = d"

section \<open>The blocking backend (flock)\<close>

subsection \<open>The operating system as the backend sees it\<close>

text \<open>
  Every call that leaves the package is recorded, with what it returned:
  \<open>CallOpen path mode perm r\<close>, \<open>CallFlock fd how r\<close>, \<open>CallNow n\<close> (the reading),
  \<open>CallSince t d\<close> (\<^verbatim>\<open>time.Since(t)\<close> returned \<open>d\<close>) and \<open>CallSleep d\<close>. \<open>CallClose fd\<close>
  stands for \<^verbatim>\<open>close(2)\<close>, which no function of the backend calls. The answers
  come from the environment: \<open>clock\<close> is the sequence of readings the coming calls of
  \<^verbatim>\<open>time.Now\<close> return, \<open>flock_ans\<close> the sequence of results of the coming calls of
  \<^verbatim>\<open>flock(2)\<close> (\<open>None\<close> is success, \<open>Some e\<close> is errno \<open>e\<close>), \<open>open_ans\<close> that of the
  coming calls of \<^verbatim>\<open>open(2)\<close> that pass the checks on the path (an errno or a new
  descriptor). Each call takes the head of its sequence. \<open>files\<close> are the paths that
  exist. The readings of the clock are not constrained: how much time passes between
  two of them, a sleep included, is up to the environment. A blocking \<^verbatim>\<open>flock\<close> or an
  infinite wait is described by what it returns once it returns.
\<close>

datatype call =
    is_CallOpen: CallOpen string nat nat "error + int"
  | is_CallClose: CallClose int
  | is_CallFlock: CallFlock (fd_of: int) nat "error option"
  | is_CallNow: CallNow Time
  | is_CallSince: CallSince Time Duration
  | is_CallSleep: CallSleep Duration

record world =
  clock :: "nat \<Rightarrow> Time"
  flock_ans :: "nat \<Rightarrow> uintptr option"
  open_ans :: "nat \<Rightarrow> uintptr + int"
  files :: "string list"
  trace :: "call list"

text \<open>Constants of package syscall (their linux values).\<close>

definition EWOULDBLOCK :: error where
  "EWOULDBLOCK = Errno 11"

definition EEXIST :: error where
  "EEXIST = Errno 17"

definition ENOENT :: error where
  "ENOENT = Errno 2"

definition O_RDONLY :: nat where "O_RDONLY = 0"
definition O_CREAT :: nat where "O_CREAT = 64"
definition O_EXCL :: nat where "O_EXCL = 128"

definition LOCK_EX :: nat where "LOCK_EX = 2"
definition LOCK_NB :: nat where "LOCK_NB = 4"
definition LOCK_UN :: nat where "LOCK_UN = 8"

definition tl_ans :: "(nat \<Rightarrow> 'a) \<Rightarrow> nat \<Rightarrow> 'a" where
  "tl_ans f = (\<lambda>k. f (Suc k))"

definition Now :: "world \<Rightarrow> Time \<times> world" where
  "Now w = (clock w 0,
            w\<lparr>clock := tl_ans (clock w), trace := trace w @ [CallNow (clock w 0)]\<rparr>)"

text \<open>\<^verbatim>\<open>time.Since(t)\<close> is \<^verbatim>\<open>time.Now().Sub(t)\<close>: it takes one reading of the clock.\<close>

definition Since :: "Time \<Rightarrow> world \<Rightarrow> Duration \<times> world" where
  "Since t w = (Sub (clock w 0) t,
                w\<lparr>clock := tl_ans (clock w), trace := trace w @ [CallSince t (Sub (clock w 0) t)]\<rparr>)"

definition Sleep :: "Duration \<Rightarrow> world \<Rightarrow> world" where
  "Sleep d w = w\<lparr>trace := trace w @ [CallSleep d]\<rparr>"

definition Flock :: "int \<Rightarrow> nat \<Rightarrow> world \<Rightarrow> error option \<times> world" where
  "Flock fd how w =
     (let r = map_option Errno (flock_ans w 0)
      in (r, w\<lparr>flock_ans := tl_ans (flock_ans w), trace := trace w @ [CallFlock fd how r]\<rparr>))"

text \<open>
  \<^verbatim>\<open>open(2)\<close>: with \<^verbatim>\<open>O_CREAT|O_EXCL\<close> an existing path is an error, without
  \<^verbatim>\<open>O_CREAT\<close> a missing one is; otherwise the environment decides (permissions,
  descriptor limits), and a successful call with \<^verbatim>\<open>O_CREAT\<close> leaves the path existing.
\<close>

definition Open :: "string \<Rightarrow> nat \<Rightarrow> nat \<Rightarrow> world \<Rightarrow> (error + int) \<times> world" where
  "Open path mode perm w =
     (if path \<in> set (files w) \<and> mode AND O_CREAT \<noteq> 0 \<and> mode AND O_EXCL \<noteq> 0
      then (Inl EEXIST, w\<lparr>trace := trace w @ [CallOpen path mode perm (Inl EEXIST)]\<rparr>)
      else if path \<notin> set (files w) \<and> mode AND O_CREAT = 0
      then (Inl ENOENT, w\<lparr>trace := trace w @ [CallOpen path mode perm (Inl ENOENT)]\<rparr>)
      else (case open_ans w 0 of
              Inl e \<Rightarrow> (Inl (Errno e),
                        w\<lparr>open_ans := tl_ans (open_ans w),
                          trace := trace w @ [CallOpen path mode perm (Inl (Errno e))]\<rparr>)
            | Inr fd \<Rightarrow> (Inr fd,
                        w\<lparr>open_ans := tl_ans (open_ans w),
                          files := (if path \<in> set (files w) then files w else path # files w),
                          trace := trace w @ [CallOpen path mode perm (Inr fd)]\<rparr>)))"

subsection \<open>The backend\<close>

text \<open>\<^verbatim>\<open>type Lock int\<close>: the lock is the file descriptor.\<close>

type_synonym Lock = int

text \<open>\<^verbatim>\<open>New\<close> returns \<^verbatim>\<open>(Lock, error)\<close>, the lock being 0 on error.\<close>

definition New_unix :: "string \<Rightarrow> world \<Rightarrow> (Lock \<times> error option) \<times> world" where
  "New_unix filename w =
     (case Open filename (O_CREAT OR O_RDONLY) 384 w of
        (Inl err, w') \<Rightarrow> ((0, Some err), w')
      | (Inr fd, w') \<Rightarrow> ((fd, None), w'))"

definition Lock_unix :: "Lock \<Rightarrow> world \<Rightarrow> error option \<times> world" where
  "Lock_unix l w = Flock l LOCK_EX w"

definition Unlock_unix :: "Lock \<Rightarrow> world \<Rightarrow> error option \<times> world" where
  "Unlock_unix l w = Flock l LOCK_UN w"

text \<open>
  The \<^verbatim>\<open>for\<close> loop of \<^verbatim>\<open>LockWithTimeout\<close>, with its local \<open>t\<close>. The loop need not end:
  \<open>None\<close> is a call that never returns. \<^verbatim>\<open>timeout > 0 && time.Since(t) > timeout\<close>
  reads the clock only when the timeout is positive.
\<close>

partial_function (option) LockWithTimeout_loop ::
  "Lock \<Rightarrow> Duration \<Rightarrow> Time \<Rightarrow> world \<Rightarrow> (error option \<times> world) option" where
  "LockWithTimeout_loop l timeout t w =
     (let (expired, t1, w1) =
            (if IsZero t then (let (n, w') = Now w in (False, n, w'))
             else if timeout > 0 then (let (d, w') = Since t w in (d > timeout, t, w'))
             else (False, t, w))
      in if expired then Some (Some ErrTimeout, w1)
         else (let (err, w2) = Flock l (LOCK_EX OR LOCK_NB) w1
               in if err = None then Some (None, w2)
                  else if err \<noteq> Some EWOULDBLOCK then Some (err, w2)
                  else LockWithTimeout_loop l timeout t1 (Sleep (50 * Millisecond) w2)))"

declare LockWithTimeout_loop.simps [code]

text \<open>\<^verbatim>\<open>var t time.Time\<close> starts as the zero Time.\<close>

definition LockWithTimeout_unix :: "Lock \<Rightarrow> Duration \<Rightarrow> world \<Rightarrow> (error option \<times> world) option" where
  "LockWithTimeout_unix l timeout w = LockWithTimeout_loop l timeout 0 w"

section \<open>The asynchronous backend (LockFileEx)\<close>

subsection \<open>The operating system as the backend sees it\<close>

text \<open>
  The system calls of the backend, with their arguments. A pointer to a
  \<^verbatim>\<open>syscall.Overlapped\<close> is an \<open>Overlapped option\<close>, \<open>None\<close> being nil; the other pointer
  arguments are nil in every call and left out.
\<close>

type_synonym Handle = uintptr
type_synonym uint32 = "32 word"

record Overlapped =
  HEvent :: Handle

datatype wincall =
    is_CallCreateFile: CallCreateFile string uint32 uint32 uint32 uint32
  | is_CallCreateEventW: CallCreateEventW uint32 uint32
  | is_CallLockFileEx: CallLockFileEx (handle_of: Handle) uint32 uint32 uint32 uint32 "Overlapped option"
  | is_CallUnlockFileEx: CallUnlockFileEx Handle uint32 uint32 uint32 "Overlapped option"
  | is_CallWaitForSingleObject: CallWaitForSingleObject Handle uint32
  | is_CallCloseHandle: CallCloseHandle Handle

text \<open>
  \<open>sys_ans\<close> is the sequence of answers \<open>(r1, e1)\<close> of the coming system calls (the
  result and the last error), \<open>wfiles\<close> the paths that exist, \<open>wtrace\<close> the calls made so
  far with their answers.
\<close>

record winworld =
  sys_ans :: "nat \<Rightarrow> uintptr \<times> uintptr"
  wfiles :: "string list"
  wtrace :: "(wincall \<times> uintptr \<times> uintptr) list"

text \<open>Constants of package syscall and of the Windows API.\<close>

definition InvalidHandle :: Handle where "InvalidHandle = - 1"
definition INFINITE :: uint32 where "INFINITE = 0xffffffff"
definition GENERIC_READ :: uint32 where "GENERIC_READ = 0x80000000"
definition GENERIC_WRITE :: uint32 where "GENERIC_WRITE = 0x40000000"
definition FILE_SHARE_READ :: uint32 where "FILE_SHARE_READ = 1"
definition FILE_SHARE_WRITE :: uint32 where "FILE_SHARE_WRITE = 2"
definition CREATE_NEW :: uint32 where "CREATE_NEW = 1"
definition OPEN_EXISTING :: uint32 where "OPEN_EXISTING = 3"
definition TRUNCATE_EXISTING :: uint32 where "TRUNCATE_EXISTING = 5"
definition FILE_FLAG_OVERLAPPED :: uint32 where "FILE_FLAG_OVERLAPPED = 0x40000000"
definition ERROR_FILE_NOT_FOUND :: uintptr where "ERROR_FILE_NOT_FOUND = 2"
definition ERROR_FILE_EXISTS :: uintptr where "ERROR_FILE_EXISTS = 80"
definition ERROR_IO_PENDING :: uintptr where "ERROR_IO_PENDING = 997"

text \<open>
  \<^verbatim>\<open>syscall.EINVAL\<close> on Windows is a value package syscall invents above
  \<^verbatim>\<open>APPLICATION_ERROR\<close> (\<open>2 ^ 29\<close>); no result below depends on the number.
\<close>

definition EINVAL :: error where "EINVAL = Errno (2 ^ 29 + 39)"

text \<open>A system call takes the next answer of the environment.\<close>

definition Syscall :: "wincall \<Rightarrow> winworld \<Rightarrow> (uintptr \<times> uintptr) \<times> winworld" where
  "Syscall c w =
     (sys_ans w 0, w\<lparr>sys_ans := tl_ans (sys_ans w), wtrace := wtrace w @ [(c, sys_ans w 0)]\<rparr>)"

text \<open>
  \<^verbatim>\<open>CreateFileW\<close>: with \<^verbatim>\<open>CREATE_NEW\<close> an existing path fails with
  \<^verbatim>\<open>ERROR_FILE_EXISTS\<close>, with \<^verbatim>\<open>OPEN_EXISTING\<close> or \<^verbatim>\<open>TRUNCATE_EXISTING\<close> a missing
  one fails with \<^verbatim>\<open>ERROR_FILE_NOT_FOUND\<close>; otherwise the environment decides, and a
  successful call leaves the path existing.
\<close>

definition CreateFileW ::
  "string \<Rightarrow> uint32 \<Rightarrow> uint32 \<Rightarrow> uint32 \<Rightarrow> uint32 \<Rightarrow> winworld \<Rightarrow> (uintptr \<times> uintptr) \<times> winworld" where
  "CreateFileW name access share createmode attrs w =
     (let c = CallCreateFile name access share createmode attrs
      in if name \<in> set (wfiles w) \<and> createmode = CREATE_NEW
         then ((InvalidHandle, ERROR_FILE_EXISTS),
               w\<lparr>wtrace := wtrace w @ [(c, InvalidHandle, ERROR_FILE_EXISTS)]\<rparr>)
         else if name \<notin> set (wfiles w) \<and> (createmode = OPEN_EXISTING \<or> createmode = TRUNCATE_EXISTING)
         then ((InvalidHandle, ERROR_FILE_NOT_FOUND),
               w\<lparr>wtrace := wtrace w @ [(c, InvalidHandle, ERROR_FILE_NOT_FOUND)]\<rparr>)
         else (let (a, w') = Syscall c w
               in (a, if fst a \<noteq> InvalidHandle \<and> name \<notin> set (wfiles w)
                      then w'\<lparr>wfiles := name # wfiles w\<rparr> else w')))"

subsection \<open>The wrappers of package syscall the backend calls\<close>

text \<open>\<^verbatim>\<open>syscall.UTF16PtrFromString\<close> refuses a string with a NUL byte.\<close>

definition UTF16PtrFromString :: "string \<Rightarrow> error + string" where
  "UTF16PtrFromString s = (if CHR 0x00 \<in> set s then Inl EINVAL else Inr s)"

text \<open>
  \<^verbatim>\<open>syscall.CreateFile\<close>, \<^verbatim>\<open>syscall.WaitForSingleObject\<close> and \<^verbatim>\<open>syscall.CloseHandle\<close>
  set the error only when the call reports failure: an invalid handle, the event
  \<^verbatim>\<open>0xffffffff\<close> (\<^verbatim>\<open>WAIT_FAILED\<close>), a zero result.
\<close>

definition errnoErr :: "uintptr \<Rightarrow> error option" where
  "errnoErr e1 = (if e1 \<noteq> 0 then Some (Errno e1) else Some EINVAL)"

definition CreateFile ::
  "string \<Rightarrow> uint32 \<Rightarrow> uint32 \<Rightarrow> uint32 \<Rightarrow> uint32 \<Rightarrow> winworld \<Rightarrow> (Handle \<times> error option) \<times> winworld" where
  "CreateFile name access share createmode attrs w =
     (let ((r0, e1), w') = CreateFileW name access share createmode attrs w
      in ((r0, if r0 = InvalidHandle then errnoErr e1 else None), w'))"

definition WaitForSingleObject ::
  "Handle \<Rightarrow> uint32 \<Rightarrow> winworld \<Rightarrow> (uint32 \<times> error option) \<times> winworld" where
  "WaitForSingleObject h waitMilliseconds w =
     (let ((r0, e1), w') = Syscall (CallWaitForSingleObject h waitMilliseconds) w;
          event = (ucast r0 :: uint32)
      in ((event, if event = 0xffffffff then errnoErr e1 else None), w'))"

definition CloseHandle :: "Handle \<Rightarrow> winworld \<Rightarrow> error option \<times> winworld" where
  "CloseHandle h w =
     (let ((r1, e1), w') = Syscall (CallCloseHandle h) w
      in (if r1 = 0 then errnoErr e1 else None, w'))"

subsection \<open>The backend\<close>

definition lockfileExclusiveLock :: uint32 where
  "lockfileExclusiveLock = 2"

definition lockFileEx ::
  "Handle \<Rightarrow> uint32 \<Rightarrow> uint32 \<Rightarrow> uint32 \<Rightarrow> uint32 \<Rightarrow> Overlapped option \<Rightarrow> winworld
     \<Rightarrow> error option \<times> winworld" where
  "lockFileEx h flags reserved locklow lockhigh ol w =
     (let ((r1, e1), w') = Syscall (CallLockFileEx h flags reserved locklow lockhigh ol) w
      in (if r1 = 0 then (if e1 \<noteq> 0 then Some (Errno e1) else Some EINVAL) else None, w'))"

definition unlockFileEx ::
  "Handle \<Rightarrow> uint32 \<Rightarrow> uint32 \<Rightarrow> uint32 \<Rightarrow> Overlapped option \<Rightarrow> winworld
     \<Rightarrow> error option \<times> winworld" where
  "unlockFileEx h reserved locklow lockhigh ol w =
     (let ((r1, e1), w') = Syscall (CallUnlockFileEx h reserved locklow lockhigh ol) w
      in (if r1 = 0 then (if e1 \<noteq> 0 then Some (Errno e1) else Some EINVAL) else None, w'))"

definition createEvent :: "bool \<Rightarrow> bool \<Rightarrow> winworld \<Rightarrow> (Handle \<times> error option) \<times> winworld" where
  "createEvent manualReset initialState w =
     (let p0 = (if manualReset then 1 else 0);
          p1 = (if initialState then 1 else 0);
          ((r0, e1), w') = Syscall (CallCreateEventW p0 p1) w
      in ((r0, if r0 = InvalidHandle then (if e1 \<noteq> 0 then Some (Errno e1) else Some EINVAL)
               else None), w'))"

text \<open>\<^verbatim>\<open>newOverlapped\<close> returns a nil pointer with the error, or the structure.\<close>

definition newOverlapped :: "winworld \<Rightarrow> (error + Overlapped) \<times> winworld" where
  "newOverlapped w =
     (let ((event, err), w') = createEvent True True w
      in (case err of Some e \<Rightarrow> (Inl e, w') | None \<Rightarrow> (Inr \<lparr>HEvent = event\<rparr>, w')))"

definition New_windows :: "string \<Rightarrow> winworld \<Rightarrow> (Handle \<times> error option) \<times> winworld" where
  "New_windows filename w =
     (case UTF16PtrFromString filename of
        Inl err \<Rightarrow> ((0, Some err), w)
      | Inr name \<Rightarrow>
          (let ((handle, err), w') =
                 CreateFile name (GENERIC_READ OR GENERIC_WRITE)
                   (FILE_SHARE_READ OR FILE_SHARE_WRITE) CREATE_NEW FILE_FLAG_OVERLAPPED w
           in if err \<noteq> None then ((0, err), w') else ((handle, None), w')))"

text \<open>
  The deferred \<^verbatim>\<open>syscall.CloseHandle(ol.HEvent)\<close> runs when the function returns, after
  the result is fixed; its own result is dropped.
\<close>

definition Lock_windows :: "Handle \<Rightarrow> winworld \<Rightarrow> error option \<times> winworld" where
  "Lock_windows l w =
     (case newOverlapped w of
        (Inl err, w1) \<Rightarrow> (Some err, w1)
      | (Inr ol, w1) \<Rightarrow>
          (let (err, w2) = lockFileEx l lockfileExclusiveLock 0 1 0 (Some ol) w1
           in if err \<noteq> None then (err, snd (CloseHandle (HEvent ol) w2))
              else (let ((event, err'), w3) = WaitForSingleObject (HEvent ol) INFINITE w2
                    in (err', snd (CloseHandle (HEvent ol) w3)))))"

definition Unlock_windows :: "Handle \<Rightarrow> winworld \<Rightarrow> error option \<times> winworld" where
  "Unlock_windows l w = unlockFileEx l 0 1 0 None w"

text \<open>
  \<^verbatim>\<open>uint32(timeout.Nanoseconds()/1000)\<close>: Go's division of integers truncates towards
  zero (\<open>sdiv\<close>), the conversion to \<^verbatim>\<open>uint32\<close> keeps the low 32 bits.
\<close>

definition LockWithTimeout_windows :: "Handle \<Rightarrow> Duration \<Rightarrow> winworld \<Rightarrow> error option \<times> winworld" where
  "LockWithTimeout_windows l timeout w =
     (case newOverlapped w of
        (Inl err, w1) \<Rightarrow> (Some err, w1)
      | (Inr ol, w1) \<Rightarrow>
          (let (err, w2) = lockFileEx l lockfileExclusiveLock 0 1 0 (Some ol) w1
           in if err \<noteq> None then (err, snd (CloseHandle (HEvent ol) w2))
              else (let ((event, err'), w3) =
                          WaitForSingleObject (HEvent ol)
                            (word_of_int (Nanoseconds timeout sdiv 1000)) w2
                    in (err', snd (CloseHandle (HEvent ol) w3)))))"

section \<open>Environments used as examples\<close>

text \<open>
  In \<open>contended n\<close> another owner holds the lock during the first \<open>n\<close> attempts and has
  released it afterwards; in \<open>contended_forever\<close> it never releases it; in
  \<open>failing n e\<close> the attempt after \<open>n\<close> contended ones fails with errno \<open>e\<close>. The clock
  reads 1000 at first and 60 ms more at each later reading.
\<close>

definition ticking :: "nat \<Rightarrow> Time" where
  "ticking k = 1000 + 60000000 * int k"

definition contended :: "nat \<Rightarrow> world" where
  "contended n = \<lparr>clock = ticking,
                   flock_ans = (\<lambda>k. if k < n then Some 11 else None),
                   open_ans = (\<lambda>k. Inr (3 + int k)),
                   files = [''testing''], trace = []\<rparr>"

definition contended_forever :: world where
  "contended_forever = \<lparr>clock = ticking,
                         flock_ans = (\<lambda>k. Some 11),
                         open_ans = (\<lambda>k. Inr (3 + int k)),
                         files = [''testing''], trace = []\<rparr>"

definition failing :: "nat \<Rightarrow> uintptr \<Rightarrow> world" where
  "failing n e = \<lparr>clock = ticking,
                   flock_ans = (\<lambda>k. if k < n then Some 11 else Some e),
                   open_ans = (\<lambda>k. Inr (3 + int k)),
                   files = [''testing''], trace = []\<rparr>"

text \<open>
  On Windows: the path \<^verbatim>\<open>testing\<close> exists; \<^verbatim>\<open>CreateEventW\<close> answers the handle 100, the
  lock request is accepted, the wait answers \<open>r\<close>, every other call succeeds.
\<close>

definition waiting :: "uintptr \<Rightarrow> winworld" where
  "waiting r = \<lparr>sys_ans = (\<lambda>k. if k = 0 then (100, 0) else if k = 2 then (r, 0) else (1, 0)),
                 wfiles = [''testing''], wtrace = []\<rparr>"

section \<open>One iteration of the poll loop\<close>

lemmas prims = Now_def Since_def Sleep_def Flock_def tl_ans_def IsZero_def

text \<open>The iteration that finds the timeout exceeded returns the sentinel.\<close>

lemma loop_expired:
  "t \<noteq> 0 \<Longrightarrow> 0 < timeout \<Longrightarrow> timeout < Sub (clock w 0) t \<Longrightarrow>
   LockWithTimeout_loop l timeout t w = Some (Some ErrTimeout, snd (Since t w))"
  by (subst LockWithTimeout_loop.simps) (simp add: prims Let_def)

text \<open>Every other iteration makes an attempt, in the world \<open>w1\<close> its clock step leaves.\<close>

lemma loop_attempt:
  "\<not> (t \<noteq> 0 \<and> 0 < timeout \<and> timeout < Sub (clock w 0) t) \<Longrightarrow>
   w1 = (if t = 0 then snd (Now w) else if 0 < timeout then snd (Since t w) else w) \<Longrightarrow>
   LockWithTimeout_loop l timeout t w =
     (case flock_ans w 0 of
        None \<Rightarrow> Some (None, snd (Flock l (LOCK_EX OR LOCK_NB) w1))
      | Some e \<Rightarrow>
          if e \<noteq> 11 then Some (Some (Errno e), snd (Flock l (LOCK_EX OR LOCK_NB) w1))
          else LockWithTimeout_loop l timeout (if t = 0 then clock w 0 else t)
                 (Sleep (50 * Millisecond) (snd (Flock l (LOCK_EX OR LOCK_NB) w1))))"
  by (subst LockWithTimeout_loop.simps)
     (auto simp add: prims Let_def EWOULDBLOCK_def split: option.splits)

lemma attempt_trace:
  "w1 = (if t = 0 then snd (Now w) else if 0 < timeout then snd (Since t w) else w) \<Longrightarrow>
   \<exists>ev. trace (snd (Flock l how w1)) =
           trace w @ ev @ [CallFlock l how (map_option Errno (flock_ans w 0))]
      \<and> filter is_CallFlock ev = [] \<and> filter is_CallSleep ev = []
      \<and> flock_ans (snd (Flock l how w1)) = (\<lambda>k. flock_ans w (Suc k))"
  by (simp add: prims Let_def)

section \<open>Errors of the lock attempt and of the release\<close>

lemma loop_error_after:
  assumes "\<forall>k<n. flock_ans w k = Some 11" and "flock_ans w n = Some e" and "e \<noteq> 11"
  shows "\<exists>w' new. trace w' = trace w @ new \<and>
     (LockWithTimeout_loop l timeout t w = Some (Some ErrTimeout, w') \<and> 0 < timeout
        \<and> length (filter is_CallFlock new) \<le> n
      \<or> LockWithTimeout_loop l timeout t w = Some (Some (Errno e), w')
        \<and> last new = CallFlock l (LOCK_EX OR LOCK_NB) (Some (Errno e))
        \<and> length (filter is_CallFlock new) = Suc n
        \<and> length (filter is_CallSleep new) = n)"
  using assms
proof (induction n arbitrary: t w)
  case 0
  show ?case
  proof (cases "t \<noteq> 0 \<and> 0 < timeout \<and> timeout < Sub (clock w 0) t")
    case True
    then have "LockWithTimeout_loop l timeout t w = Some (Some ErrTimeout, snd (Since t w))"
      by (simp add: loop_expired)
    moreover have "trace (snd (Since t w)) = trace w @ [CallSince t (Sub (clock w 0) t)]"
      by (simp add: prims)
    ultimately show ?thesis using True by fastforce
  next
    case False
    define w1 where "w1 = (if t = 0 then snd (Now w) else if 0 < timeout then snd (Since t w) else w)"
    from loop_attempt [OF False w1_def] "0.prems"
    have "LockWithTimeout_loop l timeout t w =
            Some (Some (Errno e), snd (Flock l (LOCK_EX OR LOCK_NB) w1))"
      by simp
    moreover from attempt_trace [OF w1_def, of l "LOCK_EX OR LOCK_NB"] "0.prems"
    obtain ev where "trace (snd (Flock l (LOCK_EX OR LOCK_NB) w1))
        = trace w @ ev @ [CallFlock l (LOCK_EX OR LOCK_NB) (Some (Errno e))]"
      "filter is_CallFlock ev = []" "filter is_CallSleep ev = []"
      by auto
    ultimately show ?thesis
      by (intro exI [of _ "snd (Flock l (LOCK_EX OR LOCK_NB) w1)"]
                exI [of _ "ev @ [CallFlock l (LOCK_EX OR LOCK_NB) (Some (Errno e))]"]) simp
  qed
next
  case (Suc n)
  from Suc.prems have h0: "flock_ans w 0 = Some 11" by simp
  show ?case
  proof (cases "t \<noteq> 0 \<and> 0 < timeout \<and> timeout < Sub (clock w 0) t")
    case True
    then have "LockWithTimeout_loop l timeout t w = Some (Some ErrTimeout, snd (Since t w))"
      by (simp add: loop_expired)
    moreover have "trace (snd (Since t w)) = trace w @ [CallSince t (Sub (clock w 0) t)]"
      by (simp add: prims)
    ultimately show ?thesis using True by fastforce
  next
    case False
    define w1 where "w1 = (if t = 0 then snd (Now w) else if 0 < timeout then snd (Since t w) else w)"
    define t1 where "t1 = (if t = 0 then clock w 0 else t)"
    define w2 where "w2 = Sleep (50 * Millisecond) (snd (Flock l (LOCK_EX OR LOCK_NB) w1))"
    from loop_attempt [OF False w1_def] h0
    have step: "LockWithTimeout_loop l timeout t w = LockWithTimeout_loop l timeout t1 w2"
      by (simp add: t1_def w2_def)
    from attempt_trace [OF w1_def, of l "LOCK_EX OR LOCK_NB"]
    obtain ev where tr2: "trace w2 = trace w @ ev"
       and ev1: "length (filter is_CallFlock ev) = 1" and ev2: "length (filter is_CallSleep ev) = 1"
       and ans2: "flock_ans w2 = (\<lambda>k. flock_ans w (Suc k))"
      by (auto simp add: w2_def Sleep_def)
    from Suc.prems have p1: "\<forall>k<n. flock_ans w2 k = Some 11" and p2: "flock_ans w2 n = Some e"
      by (simp_all add: ans2)
    from Suc.IH [OF p1 p2 Suc.prems(3), of t1]
    obtain w' new where tr: "trace w' = trace w2 @ new" and
      r: "LockWithTimeout_loop l timeout t1 w2 = Some (Some ErrTimeout, w') \<and> 0 < timeout
        \<and> length (filter is_CallFlock new) \<le> n
      \<or> LockWithTimeout_loop l timeout t1 w2 = Some (Some (Errno e), w')
        \<and> last new = CallFlock l (LOCK_EX OR LOCK_NB) (Some (Errno e))
        \<and> length (filter is_CallFlock new) = Suc n
        \<and> length (filter is_CallSleep new) = n"
      by blast
    from r have ne: "LockWithTimeout_loop l timeout t1 w2 = Some (Some (Errno e), w') \<Longrightarrow> new \<noteq> []"
      by (auto simp: ErrTimeout_def)
    show ?thesis
      apply (rule exI [of _ w'], rule exI [of _ "ev @ new"])
      using tr tr2 r ev1 ev2 step ne by (auto simp: ErrTimeout_def)
  qed
qed

text \<open>
  C7. On the blocking backend, when the attempts of \<^verbatim>\<open>LockWithTimeout\<close> report
  \<^verbatim>\<open>EWOULDBLOCK\<close> \<open>n\<close> times and the next one reports another errno \<open>e\<close>, the call returns
  that error, and the failed attempt is the last thing it did: \<open>n + 1\<close> attempts, \<open>n\<close>
  sleeps, nothing after the failed attempt (unless the timeout ended the call before
  that attempt was made). \<^verbatim>\<open>Unlock\<close> makes one \<^verbatim>\<open>flock\<close> call and returns what it
  reports.
\<close>

theorem C7_other_errors_returned_at_once:
  "((\<forall>k<n. map_option Errno (flock_ans w k) = Some EWOULDBLOCK) \<and> flock_ans w n = Some e
      \<and> Errno e \<noteq> EWOULDBLOCK \<longrightarrow>
    (\<exists>w' new. trace w' = trace w @ new \<and>
     (LockWithTimeout_unix l timeout w = Some (Some ErrTimeout, w') \<and> 0 < timeout
        \<and> length (filter is_CallFlock new) \<le> n
      \<or> LockWithTimeout_unix l timeout w = Some (Some (Errno e), w')
        \<and> last new = CallFlock l (LOCK_EX OR LOCK_NB) (Some (Errno e))
        \<and> length (filter is_CallFlock new) = Suc n
        \<and> length (filter is_CallSleep new) = n)))
   \<and> (\<exists>w'. Unlock_unix l w = (map_option Errno (flock_ans w 0), w')
          \<and> trace w' = trace w @ [CallFlock l LOCK_UN (map_option Errno (flock_ans w 0))])"
proof (intro conjI impI)
  assume "(\<forall>k<n. map_option Errno (flock_ans w k) = Some EWOULDBLOCK) \<and> flock_ans w n = Some e
      \<and> Errno e \<noteq> EWOULDBLOCK"
  then have "\<forall>k<n. flock_ans w k = Some 11" "flock_ans w n = Some e" "e \<noteq> 11"
    by (auto simp: EWOULDBLOCK_def)
  from loop_error_after [OF this, of l timeout 0]
  show "\<exists>w' new. trace w' = trace w @ new \<and>
     (LockWithTimeout_unix l timeout w = Some (Some ErrTimeout, w') \<and> 0 < timeout
        \<and> length (filter is_CallFlock new) \<le> n
      \<or> LockWithTimeout_unix l timeout w = Some (Some (Errno e), w')
        \<and> last new = CallFlock l (LOCK_EX OR LOCK_NB) (Some (Errno e))
        \<and> length (filter is_CallFlock new) = Suc n
        \<and> length (filter is_CallSleep new) = n)"
    by (simp add: LockWithTimeout_unix_def)
next
  show "\<exists>w'. Unlock_unix l w = (map_option Errno (flock_ans w 0), w')
          \<and> trace w' = trace w @ [CallFlock l LOCK_UN (map_option Errno (flock_ans w 0))]"
    by (simp add: Unlock_unix_def Flock_def Let_def)
qed

theorem C7_other_errors_returned_at_once_witness:
  "map_option Errno (flock_ans (failing 2 9) 0) = Some EWOULDBLOCK
   \<and> map_option Errno (flock_ans (failing 2 9) 1) = Some EWOULDBLOCK
   \<and> flock_ans (failing 2 9) 2 = Some 9 \<and> Errno 9 \<noteq> EWOULDBLOCK
   \<and> (\<exists>w' new. trace w' = new \<and>
        LockWithTimeout_unix 3 0 (failing 2 9) = Some (Some (Errno 9), w')
        \<and> last new = CallFlock 3 (LOCK_EX OR LOCK_NB) (Some (Errno 9))
        \<and> length (filter is_CallFlock new) = 3
        \<and> length (filter is_CallSleep new) = 2)"
  using C7_other_errors_returned_at_once [of 2 "failing 2 9" 9 3 0]
  by (simp add: failing_def EWOULDBLOCK_def)

section \<open>Non-positive timeouts\<close>

lemma loop_blocked_prefix:
  "timeout \<le> 0 \<Longrightarrow> (\<forall>k<n. flock_ans w k = Some 11) \<Longrightarrow>
   \<exists>t' w' new. LockWithTimeout_loop l timeout t w = LockWithTimeout_loop l timeout t' w'
      \<and> trace w' = trace w @ new
      \<and> flock_ans w' = (\<lambda>k. flock_ans w (k + n))
      \<and> length (filter is_CallFlock new) = n
      \<and> length (filter is_CallSleep new) = n
      \<and> (\<forall>c\<in>set new. is_CallSleep c \<longrightarrow> c = CallSleep (50 * Millisecond))
      \<and> (\<forall>c\<in>set new. \<not> is_CallSince c)"
proof (induction n arbitrary: t w)
  case 0
  show ?case
    by (rule exI [of _ t], rule exI [of _ w], rule exI [of _ "[]"]) simp
next
  case (Suc n)
  from Suc.prems have h0: "flock_ans w 0 = Some 11" by simp
  define t1 where "t1 = (if t = 0 then clock w 0 else t)"
  define w1 where "w1 = (if t = 0 then snd (Now w) else if 0 < timeout then snd (Since t w) else w)"
  define w2 where "w2 = Sleep (50 * Millisecond) (snd (Flock l (LOCK_EX OR LOCK_NB) w1))"
  from Suc.prems(1) have "\<not> (t \<noteq> 0 \<and> 0 < timeout \<and> timeout < Sub (clock w 0) t)" by simp
  from loop_attempt [OF this w1_def] h0
  have step: "LockWithTimeout_loop l timeout t w = LockWithTimeout_loop l timeout t1 w2"
    by (simp add: t1_def w2_def)
  have ans2: "flock_ans w2 = (\<lambda>k. flock_ans w (Suc k))"
    by (simp add: w2_def w1_def prims Let_def)
  have tr2: "trace w2 = trace w @ (if t = 0 then [CallNow (clock w 0)] else [])
               @ [CallFlock l (LOCK_EX OR LOCK_NB) (Some EWOULDBLOCK), CallSleep (50 * Millisecond)]"
    using h0 Suc.prems(1) by (simp add: w2_def w1_def prims Let_def EWOULDBLOCK_def)
  from Suc.prems have "\<forall>k<n. flock_ans w2 k = Some 11" by (simp add: ans2)
  from Suc.IH [OF Suc.prems(1) this, of t1]
  obtain t' w' new where
    r: "LockWithTimeout_loop l timeout t1 w2 = LockWithTimeout_loop l timeout t' w'"
    and tr: "trace w' = trace w2 @ new"
    and an: "flock_ans w' = (\<lambda>k. flock_ans w2 (k + n))"
    and c1: "length (filter is_CallFlock new) = n"
    and c2: "length (filter is_CallSleep new) = n"
    and c3: "\<forall>c\<in>set new. is_CallSleep c \<longrightarrow> c = CallSleep (50 * Millisecond)"
    and c5: "\<forall>c\<in>set new. \<not> is_CallSince c"
    by blast
  let ?new = "(if t = 0 then [CallNow (clock w 0)] else [])
               @ [CallFlock l (LOCK_EX OR LOCK_NB) (Some EWOULDBLOCK), CallSleep (50 * Millisecond)] @ new"
  show ?case
  proof (intro exI [of _ t'] exI [of _ w'] exI [of _ ?new] conjI)
    show "LockWithTimeout_loop l timeout t w = LockWithTimeout_loop l timeout t' w'"
      using step r by simp
    show "trace w' = trace w @ ?new" using tr tr2 by simp
    show "flock_ans w' = (\<lambda>k. flock_ans w (k + Suc n))" using an ans2 by simp
    show "length (filter is_CallFlock ?new) = Suc n" using c1 by simp
    show "length (filter is_CallSleep ?new) = Suc n" using c2 by simp
    show "\<forall>c\<in>set ?new. is_CallSleep c \<longrightarrow> c = CallSleep (50 * Millisecond)" using c3 by auto
    show "\<forall>c\<in>set ?new. \<not> is_CallSince c" using c5 by auto
  qed
qed

lemma loop_granted:
  assumes "timeout \<le> 0" and "flock_ans w 0 = None"
  shows "\<exists>w' ev. LockWithTimeout_loop l timeout t w = Some (None, w')
     \<and> trace w' = trace w @ ev @ [CallFlock l (LOCK_EX OR LOCK_NB) None]
     \<and> filter is_CallFlock ev = [] \<and> filter is_CallSleep ev = [] \<and> (\<forall>c\<in>set ev. \<not> is_CallSince c)"
proof -
  define w1 where "w1 = (if t = 0 then snd (Now w) else if 0 < timeout then snd (Since t w) else w)"
  from assms(1) have "\<not> (t \<noteq> 0 \<and> 0 < timeout \<and> timeout < Sub (clock w 0) t)" by simp
  from loop_attempt [OF this w1_def] assms(2)
  have "LockWithTimeout_loop l timeout t w = Some (None, snd (Flock l (LOCK_EX OR LOCK_NB) w1))"
    by simp
  moreover have "trace (snd (Flock l (LOCK_EX OR LOCK_NB) w1)) =
      trace w @ (if t = 0 then [CallNow (clock w 0)] else []) @ [CallFlock l (LOCK_EX OR LOCK_NB) None]"
    using assms by (simp add: w1_def prims Let_def)
  ultimately show ?thesis
    by (intro exI [of _ "snd (Flock l (LOCK_EX OR LOCK_NB) w1)"]
              exI [of _ "if t = 0 then [CallNow (clock w 0)] else []"]) simp
qed





text \<open>
  C1, as amended. On the blocking backend, \<^verbatim>\<open>LockWithTimeout\<close> with a timeout of zero on a
  lock another owner holds does not fail after one attempt: it sleeps 50 ms after every
  attempt that reports \<^verbatim>\<open>EWOULDBLOCK\<close>, never asks for the elapsed time, and returns
  success when an attempt is granted: after \<open>n + 1\<close> attempts and \<open>n\<close> sleeps when the lock
  is held during \<open>n\<close> attempts.
\<close>

theorem C1_zero_timeout_keeps_retrying:
  assumes "\<forall>k<n. map_option Errno (flock_ans w k) = Some EWOULDBLOCK" and "flock_ans w n = None"
  shows "\<exists>w' new. LockWithTimeout_unix l 0 w = Some (None, w')
      \<and> trace w' = trace w @ new
      \<and> length (filter is_CallFlock new) = Suc n
      \<and> length (filter is_CallSleep new) = n
      \<and> last new = CallFlock l (LOCK_EX OR LOCK_NB) None
      \<and> (\<forall>c\<in>set new. is_CallSleep c \<longrightarrow> c = CallSleep (50 * Millisecond))
      \<and> (\<forall>c\<in>set new. \<not> is_CallSince c)"
proof -
  from assms(1) have "\<forall>k<n. flock_ans w k = Some 11" by (auto simp: EWOULDBLOCK_def)
  from loop_blocked_prefix [OF _ this, of 0 l 0]
  obtain t' w1 new where
    r: "LockWithTimeout_loop l 0 0 w = LockWithTimeout_loop l 0 t' w1"
    and tr: "trace w1 = trace w @ new"
    and an: "flock_ans w1 = (\<lambda>k. flock_ans w (k + n))"
    and c1: "length (filter is_CallFlock new) = n"
    and c2: "length (filter is_CallSleep new) = n"
    and c3: "\<forall>c\<in>set new. is_CallSleep c \<longrightarrow> c = CallSleep (50 * Millisecond)"
    and c5: "\<forall>c\<in>set new. \<not> is_CallSince c"
    by auto
  from an assms(2) have "flock_ans w1 0 = None" by simp
  from loop_granted [OF _ this, of 0 l t']
  obtain w' ev where g: "LockWithTimeout_loop l 0 t' w1 = Some (None, w')"
     and tr': "trace w' = trace w1 @ ev @ [CallFlock l (LOCK_EX OR LOCK_NB) None]"
     and e1: "filter is_CallFlock ev = []" and e2: "filter is_CallSleep ev = []"
     and e3: "\<forall>c\<in>set ev. \<not> is_CallSince c"
    by auto
  from e2 have e4: "\<forall>c\<in>set ev. \<not> is_CallSleep c" by (simp add: filter_empty_conv)
  show ?thesis
    apply (rule exI [of _ w'], rule exI [of _ "new @ ev @ [CallFlock l (LOCK_EX OR LOCK_NB) None]"])
    using r g tr tr' c1 c2 c3 c5 e1 e2 e3 e4 by (auto simp: LockWithTimeout_unix_def)
qed

theorem C1_zero_timeout_keeps_retrying_witness:
  "map_option Errno (flock_ans (contended 2) 0) = Some EWOULDBLOCK
   \<and> map_option Errno (flock_ans (contended 2) 1) = Some EWOULDBLOCK
   \<and> flock_ans (contended 2) 2 = None
   \<and> (\<exists>w' new. LockWithTimeout_unix 3 0 (contended 2) = Some (None, w')
        \<and> trace w' = new
        \<and> length (filter is_CallFlock new) = 3
        \<and> length (filter is_CallSleep new) = 2)"
  using C1_zero_timeout_keeps_retrying [of 2 "contended 2" 3]
  by (auto simp add: contended_def EWOULDBLOCK_def)

text \<open>
  C1 as stated fails: with a timeout of zero, on a lock that is held at the call and
  during the next attempt, the call makes three attempts, sleeps twice and returns
  success.
\<close>

theorem C1_zero_timeout_single_attempt_counterexample:
  "map_option Errno (flock_ans (contended 2) 0) = Some EWOULDBLOCK
   \<and> map_option fst (LockWithTimeout_unix 3 0 (contended 2)) = Some None
   \<and> map_option (trace \<circ> snd) (LockWithTimeout_unix 3 0 (contended 2)) =
       Some [CallNow 1000,
             CallFlock 3 (LOCK_EX OR LOCK_NB) (Some EWOULDBLOCK), CallSleep (50 * Millisecond),
             CallFlock 3 (LOCK_EX OR LOCK_NB) (Some EWOULDBLOCK), CallSleep (50 * Millisecond),
             CallFlock 3 (LOCK_EX OR LOCK_NB) None]"
  by (simp add: LockWithTimeout_unix_def contended_def ticking_def LockWithTimeout_loop.simps
      prims Let_def EWOULDBLOCK_def)


section \<open>The first iteration\<close>

lemma loop_trace_extends:
  assumes "LockWithTimeout_loop l timeout t w = Some y"
  shows "\<exists>new. trace (snd y) = trace w @ new"
  apply (rule LockWithTimeout_loop.raw_induct
    [where P = "\<lambda>l timeout t w y. \<exists>new. trace (snd y) = trace w @ new", OF _ assms])
  apply (fastforce simp: prims Let_def split: if_splits prod.splits)
  done

lemma first_iteration:
  "LockWithTimeout_unix l timeout w =
     (case flock_ans w 0 of
        None \<Rightarrow> Some (None, snd (Flock l (LOCK_EX OR LOCK_NB) (snd (Now w))))
      | Some e \<Rightarrow>
          if e \<noteq> 11 then Some (Some (Errno e), snd (Flock l (LOCK_EX OR LOCK_NB) (snd (Now w))))
          else LockWithTimeout_loop l timeout (clock w 0)
                 (Sleep (50 * Millisecond) (snd (Flock l (LOCK_EX OR LOCK_NB) (snd (Now w))))))"
  using loop_attempt [of 0 timeout w "snd (Now w)" l]
  by (simp add: LockWithTimeout_unix_def)

lemma first_attempt_trace:
  "trace (snd (Flock l how (snd (Now w)))) =
     trace w @ [CallNow (clock w 0), CallFlock l how (map_option Errno (flock_ans w 0))]"
  by (simp add: prims Let_def)

text \<open>
  C5. On the blocking backend, for every timeout (zero and negative ones too),
  \<^verbatim>\<open>LockWithTimeout\<close> starts by reading the clock once, for its start time, and makes a
  non-blocking attempt before any call of \<^verbatim>\<open>time.Since\<close>: a call on a lock that is free
  returns success after these two calls; the calls of every call that returns start
  with them; and a call that finds the lock held goes on in its loop, after a sleep of
  50 ms, with the start time it read.
\<close>

theorem C5_first_attempt_precedes_elapsed_check:
  "(flock_ans w 0 = None \<longrightarrow>
      (\<exists>w'. LockWithTimeout_unix l timeout w = Some (None, w')
         \<and> trace w' = trace w @ [CallNow (clock w 0), CallFlock l (LOCK_EX OR LOCK_NB) None]))
   \<and> (\<forall>r w'. LockWithTimeout_unix l timeout w = Some (r, w') \<longrightarrow>
        (\<exists>rest. trace w' = trace w @ [CallNow (clock w 0),
            CallFlock l (LOCK_EX OR LOCK_NB) (map_option Errno (flock_ans w 0))] @ rest))
   \<and> (map_option Errno (flock_ans w 0) = Some EWOULDBLOCK \<longrightarrow>
        (\<exists>w2. LockWithTimeout_unix l timeout w = LockWithTimeout_loop l timeout (clock w 0) w2
           \<and> trace w2 = trace w @ [CallNow (clock w 0),
                CallFlock l (LOCK_EX OR LOCK_NB) (Some EWOULDBLOCK), CallSleep (50 * Millisecond)]))"
proof (intro conjI allI impI)
  assume "flock_ans w 0 = None"
  then show "\<exists>w'. LockWithTimeout_unix l timeout w = Some (None, w')
         \<and> trace w' = trace w @ [CallNow (clock w 0), CallFlock l (LOCK_EX OR LOCK_NB) None]"
    using first_attempt_trace [of l "LOCK_EX OR LOCK_NB" w]
    by (simp add: first_iteration)
next
  fix r w'
  assume ret: "LockWithTimeout_unix l timeout w = Some (r, w')"
  let ?a = "[CallNow (clock w 0), CallFlock l (LOCK_EX OR LOCK_NB) (map_option Errno (flock_ans w 0))]"
  let ?w1 = "snd (Flock l (LOCK_EX OR LOCK_NB) (snd (Now w)))"
  have tr1: "trace ?w1 = trace w @ ?a" by (rule first_attempt_trace)
  show "\<exists>rest. trace w' = trace w @ ?a @ rest"
  proof (cases "flock_ans w 0 = Some 11")
    case True
    with ret have "LockWithTimeout_loop l timeout (clock w 0) (Sleep (50 * Millisecond) ?w1)
                     = Some (r, w')"
      by (simp add: first_iteration)
    from loop_trace_extends [OF this] obtain new where
      "trace w' = trace (Sleep (50 * Millisecond) ?w1) @ new" by auto
    with tr1 have "trace w' = trace w @ ?a @ (CallSleep (50 * Millisecond) # new)"
      by (simp add: Sleep_def)
    then show ?thesis by blast
  next
    case False
    with ret have "w' = ?w1"
      by (auto simp add: first_iteration split: option.splits if_splits)
    with tr1 have "trace w' = trace w @ ?a @ []" by simp
    then show ?thesis by blast
  qed
next
  assume "map_option Errno (flock_ans w 0) = Some EWOULDBLOCK"
  then have h: "flock_ans w 0 = Some 11" by (auto simp: EWOULDBLOCK_def)
  let ?w2 = "Sleep (50 * Millisecond) (snd (Flock l (LOCK_EX OR LOCK_NB) (snd (Now w))))"
  have "LockWithTimeout_unix l timeout w = LockWithTimeout_loop l timeout (clock w 0) ?w2"
    using h by (simp add: first_iteration)
  moreover have "trace ?w2 = trace w @ [CallNow (clock w 0),
                CallFlock l (LOCK_EX OR LOCK_NB) (Some EWOULDBLOCK), CallSleep (50 * Millisecond)]"
    using h first_attempt_trace [of l "LOCK_EX OR LOCK_NB" w] by (simp add: Sleep_def EWOULDBLOCK_def)
  ultimately show "\<exists>w2. LockWithTimeout_unix l timeout w = LockWithTimeout_loop l timeout (clock w 0) w2
           \<and> trace w2 = trace w @ [CallNow (clock w 0),
                CallFlock l (LOCK_EX OR LOCK_NB) (Some EWOULDBLOCK), CallSleep (50 * Millisecond)]"
    by blast
qed

theorem C5_first_attempt_precedes_elapsed_check_witness:
  "flock_ans (contended 0) 0 = None
   \<and> (\<exists>w'. LockWithTimeout_unix 3 (- 5) (contended 0) = Some (None, w')
         \<and> trace w' = [CallNow 1000, CallFlock 3 (LOCK_EX OR LOCK_NB) None])
   \<and> map_option Errno (flock_ans (contended 1) 0) = Some EWOULDBLOCK
   \<and> (\<exists>w2. LockWithTimeout_unix 3 (- 5) (contended 1) = LockWithTimeout_loop 3 (- 5) 1000 w2
           \<and> trace w2 = [CallNow 1000,
                CallFlock 3 (LOCK_EX OR LOCK_NB) (Some EWOULDBLOCK), CallSleep (50 * Millisecond)])"
  using C5_first_attempt_precedes_elapsed_check [of "contended 0" 3 "- 5"]
    C5_first_attempt_precedes_elapsed_check [of "contended 1" 3 "- 5"]
  by (simp add: contended_def ticking_def EWOULDBLOCK_def)

section \<open>The sentinel and the deadline\<close>

lemma Sub_less: "0 < timeout \<Longrightarrow> timeout < Sub n t \<Longrightarrow> timeout < n - t"
  by (simp add: Sub_def maxDuration_def minDuration_def split: if_splits)

lemma loop_timeout_elapsed:
  assumes "LockWithTimeout_loop l timeout t w = Some y"
  shows "t \<noteq> 0 \<longrightarrow> fst y = Some ErrTimeout \<longrightarrow>
           0 < timeout \<and> (\<exists>k. last (trace (snd y)) = CallSince t (Sub (clock w k) t)
                               \<and> timeout < Sub (clock w k) t)"
  apply (rule LockWithTimeout_loop.raw_induct
    [where P = "\<lambda>l timeout t w y. t \<noteq> 0 \<longrightarrow> fst y = Some ErrTimeout \<longrightarrow>
           0 < timeout \<and> (\<exists>k. last (trace (snd y)) = CallSince t (Sub (clock w k) t)
                               \<and> timeout < Sub (clock w k) t)", OF _ assms])
  apply (fastforce simp: prims Let_def ErrTimeout_def EWOULDBLOCK_def split: if_splits prod.splits)
  done

text \<open>
  C8. On the blocking backend, when the clock does not read the zero Time at the start,
  a call of \<^verbatim>\<open>LockWithTimeout\<close> that returns the sentinel has a positive timeout, and
  the last thing it did was a call of \<^verbatim>\<open>time.Since\<close> on the start time (the reading
  taken before the first attempt) that returned more than the timeout; the reading of
  that call is later than the start time by more than the timeout.
\<close>

theorem C8_sentinel_only_after_deadline:
  assumes "clock w 0 \<noteq> 0" and "LockWithTimeout_unix l timeout w = Some (Some ErrTimeout, w')"
  shows "0 < timeout \<and>
    (\<exists>k>0. last (trace w') = CallSince (clock w 0) (Sub (clock w k) (clock w 0))
          \<and> timeout < Sub (clock w k) (clock w 0)
          \<and> timeout < clock w k - clock w 0)"
proof -
  let ?w2 = "Sleep (50 * Millisecond) (snd (Flock l (LOCK_EX OR LOCK_NB) (snd (Now w))))"
  from assms(2) have rec: "LockWithTimeout_loop l timeout (clock w 0) ?w2 = Some (Some ErrTimeout, w')"
    by (auto simp add: first_iteration ErrTimeout_def split: option.splits if_splits)
  have c2: "clock ?w2 = (\<lambda>k. clock w (Suc k))" by (simp add: prims Let_def)
  from loop_timeout_elapsed [OF rec] assms(1) c2
  obtain k where pos: "0 < timeout"
    and l: "last (trace w') = CallSince (clock w 0) (Sub (clock w (Suc k)) (clock w 0))"
    and d: "timeout < Sub (clock w (Suc k)) (clock w 0)"
    by auto
  from Sub_less [OF pos d] have "timeout < clock w (Suc k) - clock w 0" .
  with pos l d show ?thesis by blast
qed

theorem C8_sentinel_only_after_deadline_witness:
  "clock contended_forever 0 \<noteq> 0
   \<and> map_option fst (LockWithTimeout_unix 3 (50 * Millisecond) contended_forever) = Some (Some ErrTimeout)
   \<and> (0 :: int) < 50 * Millisecond
   \<and> (\<exists>k>0. 50 * Millisecond < clock contended_forever k - clock contended_forever 0)"
proof -
  obtain w' where ev: "LockWithTimeout_unix 3 (50 * Millisecond) contended_forever = Some (Some ErrTimeout, w')"
    by (simp add: LockWithTimeout_unix_def contended_forever_def ticking_def LockWithTimeout_loop.simps
      prims Let_def EWOULDBLOCK_def Millisecond_def Sub_def maxDuration_def minDuration_def)
  have c: "clock contended_forever 0 \<noteq> 0" by (simp add: contended_forever_def ticking_def)
  from C8_sentinel_only_after_deadline [OF c ev] ev c show ?thesis by auto
qed


section \<open>The sentinel error\<close>





section \<open>The descriptor\<close>

lemmas winprims = Syscall_def WaitForSingleObject_def CloseHandle_def
  lockFileEx_def unlockFileEx_def createEvent_def newOverlapped_def errnoErr_def tl_ans_def

lemma loop_calls:
  assumes "LockWithTimeout_loop l timeout t w = Some y"
  shows "\<exists>new. trace (snd y) = trace w @ new \<and>
           (\<forall>c \<in> set new. \<not> is_CallOpen c \<and> \<not> is_CallClose c \<and> (is_CallFlock c \<longrightarrow> fd_of c = l))"
  apply (rule LockWithTimeout_loop.raw_induct
    [where P = "\<lambda>l timeout t w y. \<exists>new. trace (snd y) = trace w @ new \<and>
           (\<forall>c \<in> set new. \<not> is_CallOpen c \<and> \<not> is_CallClose c \<and> (is_CallFlock c \<longrightarrow> fd_of c = l))",
     OF _ assms])
  apply (fastforce simp: prims Let_def split: if_splits prod.splits)
  done

lemma LockWithTimeout_windows_calls:
  "\<exists>new. wtrace (snd (LockWithTimeout_windows h timeout v)) = wtrace v @ new
      \<and> (\<forall>c \<in> fst ` set new. \<not> is_CallCreateFile c
            \<and> (is_CallLockFileEx c \<longrightarrow> handle_of c = h)
            \<and> (is_CallCloseHandle c \<longrightarrow> c = CallCloseHandle (fst (sys_ans v 0))))"
  by (auto simp: LockWithTimeout_windows_def winprims Let_def split: prod.splits sum.splits option.splits)

lemma Lock_windows_calls:
  "\<exists>new. wtrace (snd (Lock_windows h v)) = wtrace v @ new
      \<and> (\<forall>c \<in> fst ` set new. \<not> is_CallCreateFile c
            \<and> (is_CallLockFileEx c \<longrightarrow> handle_of c = h)
            \<and> (is_CallCloseHandle c \<longrightarrow> c = CallCloseHandle (fst (sys_ans v 0))))"
  by (auto simp: Lock_windows_def winprims Let_def split: prod.splits sum.splits option.splits)

text \<open>
  C9. \<^verbatim>\<open>Unlock\<close> makes one call, the release on the descriptor of the handle
  (\<^verbatim>\<open>flock(fd, LOCK_UN)\<close>, \<^verbatim>\<open>UnlockFileEx\<close>), and \<^verbatim>\<open>Lock\<close> and \<^verbatim>\<open>LockWithTimeout\<close> lock
  through that same descriptor: none of them opens a path or closes the descriptor. On
  the asynchronous backend the one handle they close is the event \<^verbatim>\<open>CreateEventW\<close>
  returned, not the file's handle when the system gives the event a handle of its own.
  The lock is passed by value: no operation returns another descriptor.
\<close>

theorem C9_descriptor_kept_and_reused:
  "trace (snd (Unlock_unix l w)) = trace w @ [CallFlock l LOCK_UN (fst (Unlock_unix l w))]
   \<and> trace (snd (Lock_unix l w)) = trace w @ [CallFlock l LOCK_EX (fst (Lock_unix l w))]
   \<and> (\<forall>r w'. LockWithTimeout_unix l timeout w = Some (r, w') \<longrightarrow>
        (\<exists>new. trace w' = trace w @ new \<and>
           (\<forall>c \<in> set new. \<not> is_CallOpen c \<and> \<not> is_CallClose c \<and> (is_CallFlock c \<longrightarrow> fd_of c = l))))
   \<and> wtrace (snd (Unlock_windows h v)) = wtrace v @ [(CallUnlockFileEx h 0 1 0 None, sys_ans v 0)]
   \<and> (\<exists>new. wtrace (snd (Lock_windows h v)) = wtrace v @ new
          \<and> (\<forall>c \<in> fst ` set new. \<not> is_CallCreateFile c
                \<and> (is_CallLockFileEx c \<longrightarrow> handle_of c = h)
                \<and> (is_CallCloseHandle c \<longrightarrow> c = CallCloseHandle (fst (sys_ans v 0))))
          \<and> (fst (sys_ans v 0) \<noteq> h \<longrightarrow> CallCloseHandle h \<notin> fst ` set new))
   \<and> (\<exists>new. wtrace (snd (LockWithTimeout_windows h timeout v)) = wtrace v @ new
          \<and> (\<forall>c \<in> fst ` set new. \<not> is_CallCreateFile c
                \<and> (is_CallLockFileEx c \<longrightarrow> handle_of c = h)
                \<and> (is_CallCloseHandle c \<longrightarrow> c = CallCloseHandle (fst (sys_ans v 0))))
          \<and> (fst (sys_ans v 0) \<noteq> h \<longrightarrow> CallCloseHandle h \<notin> fst ` set new))"
proof (intro conjI allI impI)
  show "trace (snd (Unlock_unix l w)) = trace w @ [CallFlock l LOCK_UN (fst (Unlock_unix l w))]"
    by (simp add: Unlock_unix_def Flock_def Let_def)
  show "trace (snd (Lock_unix l w)) = trace w @ [CallFlock l LOCK_EX (fst (Lock_unix l w))]"
    by (simp add: Lock_unix_def Flock_def Let_def)
  show "wtrace (snd (Unlock_windows h v)) = wtrace v @ [(CallUnlockFileEx h 0 1 0 None, sys_ans v 0)]"
    by (simp add: Unlock_windows_def winprims Let_def split: prod.splits)
next
  fix r w'
  assume "LockWithTimeout_unix l timeout w = Some (r, w')"
  then have "LockWithTimeout_loop l timeout 0 w = Some (r, w')"
    by (simp add: LockWithTimeout_unix_def)
  from loop_calls [OF this]
  show "\<exists>new. trace w' = trace w @ new \<and>
           (\<forall>c \<in> set new. \<not> is_CallOpen c \<and> \<not> is_CallClose c \<and> (is_CallFlock c \<longrightarrow> fd_of c = l))"
    by simp
next
  from Lock_windows_calls [of h v]
  obtain new where n: "wtrace (snd (Lock_windows h v)) = wtrace v @ new"
     and c: "\<forall>c \<in> fst ` set new. \<not> is_CallCreateFile c
                \<and> (is_CallLockFileEx c \<longrightarrow> handle_of c = h)
                \<and> (is_CallCloseHandle c \<longrightarrow> c = CallCloseHandle (fst (sys_ans v 0)))"
    by blast
  from c have "fst (sys_ans v 0) \<noteq> h \<longrightarrow> CallCloseHandle h \<notin> fst ` set new" by force
  with n c show "\<exists>new. wtrace (snd (Lock_windows h v)) = wtrace v @ new
          \<and> (\<forall>c \<in> fst ` set new. \<not> is_CallCreateFile c
                \<and> (is_CallLockFileEx c \<longrightarrow> handle_of c = h)
                \<and> (is_CallCloseHandle c \<longrightarrow> c = CallCloseHandle (fst (sys_ans v 0))))
          \<and> (fst (sys_ans v 0) \<noteq> h \<longrightarrow> CallCloseHandle h \<notin> fst ` set new)"
    by blast
next
  from LockWithTimeout_windows_calls [of h timeout v]
  obtain new where n: "wtrace (snd (LockWithTimeout_windows h timeout v)) = wtrace v @ new"
     and c: "\<forall>c \<in> fst ` set new. \<not> is_CallCreateFile c
                \<and> (is_CallLockFileEx c \<longrightarrow> handle_of c = h)
                \<and> (is_CallCloseHandle c \<longrightarrow> c = CallCloseHandle (fst (sys_ans v 0)))"
    by blast
  from c have "fst (sys_ans v 0) \<noteq> h \<longrightarrow> CallCloseHandle h \<notin> fst ` set new" by force
  with n c show "\<exists>new. wtrace (snd (LockWithTimeout_windows h timeout v)) = wtrace v @ new
          \<and> (\<forall>c \<in> fst ` set new. \<not> is_CallCreateFile c
                \<and> (is_CallLockFileEx c \<longrightarrow> handle_of c = h)
                \<and> (is_CallCloseHandle c \<longrightarrow> c = CallCloseHandle (fst (sys_ans v 0))))
          \<and> (fst (sys_ans v 0) \<noteq> h \<longrightarrow> CallCloseHandle h \<notin> fst ` set new)"
    by blast
qed

theorem C9_descriptor_kept_and_reused_witness:
  "map_option fst (LockWithTimeout_unix 3 0 (contended 1)) = Some None
   \<and> CallClose 3 \<notin> set (trace (snd (the (LockWithTimeout_unix 3 0 (contended 1)))))
   \<and> CallOpen ''testing'' (O_CREAT OR O_RDONLY) 384 (Inr 4)
        \<notin> set (trace (snd (the (LockWithTimeout_unix 3 0 (contended 1)))))
   \<and> fst (sys_ans (waiting 0) 0) \<noteq> 7
   \<and> CallCloseHandle 7 \<notin> fst ` set (wtrace (snd (LockWithTimeout_windows 7 0 (waiting 0))))
   \<and> CallCloseHandle 7 \<notin> fst ` set (wtrace (snd (Lock_windows 7 (waiting 0))))"
proof -
  obtain w' where ev: "LockWithTimeout_unix 3 0 (contended 1) = Some (None, w')"
    by (simp add: LockWithTimeout_unix_def contended_def ticking_def LockWithTimeout_loop.simps
      prims Let_def EWOULDBLOCK_def)
  have h: "fst (sys_ans (waiting 0) 0) \<noteq> 7" and e: "wtrace (waiting 0) = []" "trace (contended 1) = []"
    by (simp_all add: waiting_def contended_def)
  from C9_descriptor_kept_and_reused [of 3 "contended 1" 0 7 "waiting 0"] ev h e
  show ?thesis by fastforce
qed


section \<open>The asynchronous backend\<close>



text \<open>
  When the lock request is left pending (\<^verbatim>\<open>LockFileEx\<close> answers 0 with
  \<^verbatim>\<open>ERROR_IO_PENDING\<close>), the function returns that error without waiting.
\<close>

lemma LockWithTimeout_windows_pending:
  assumes "fst (sys_ans v 0) \<noteq> InvalidHandle" and "sys_ans v 1 = (0, ERROR_IO_PENDING)"
  shows "fst (LockWithTimeout_windows l timeout v) = Some (Errno ERROR_IO_PENDING)
    \<and> map fst (wtrace (snd (LockWithTimeout_windows l timeout v))) =
        map fst (wtrace v) @
        [CallCreateEventW 1 1,
         CallLockFileEx l lockfileExclusiveLock 0 1 0 (Some \<lparr>HEvent = fst (sys_ans v 0)\<rparr>),
         CallCloseHandle (fst (sys_ans v 0))]"
  using assms
  by (simp add: LockWithTimeout_windows_def winprims Let_def case_prod_beta ERROR_IO_PENDING_def)

text \<open>
  C3 fails on the code. For a timeout of 50 ms the wait is asked for 50000 of its units,
  which are milliseconds: \<^verbatim>\<open>timeout.Nanoseconds()/1000\<close> is the number of microseconds.
  The number of milliseconds would be 50.
\<close>

theorem C3_wait_argument_is_microseconds:
  "map fst (wtrace (snd (LockWithTimeout_windows 7 (50 * Millisecond) (waiting 0)))) =
     [CallCreateEventW 1 1,
      CallLockFileEx 7 lockfileExclusiveLock 0 1 0 (Some \<lparr>HEvent = 100\<rparr>),
      CallWaitForSingleObject 100 50000,
      CallCloseHandle 100]
   \<and> (word_of_int (Nanoseconds (50 * Millisecond) sdiv Nanoseconds Millisecond) :: uint32) = 50"
  by (simp add: LockWithTimeout_windows_def waiting_def winprims Let_def lockfileExclusiveLock_def
      InvalidHandle_def Millisecond_def Nanoseconds_def signed_divide_int_def)

text \<open>
  C4 fails on the code. On the asynchronous backend \<^verbatim>\<open>New\<close> opens the file with
  \<^verbatim>\<open>CREATE_NEW\<close>: for a path that exists it makes one call of \<^verbatim>\<open>CreateFileW\<close> and
  returns the error \<^verbatim>\<open>ERROR_FILE_EXISTS\<close>.
\<close>

theorem C4_New_windows_refuses_existing_file:
  assumes "filename \<in> set (wfiles v)" and "CHR 0x00 \<notin> set filename"
  shows "fst (New_windows filename v) = (0, Some (Errno ERROR_FILE_EXISTS))
    \<and> map fst (wtrace (snd (New_windows filename v))) =
        map fst (wtrace v) @
        [CallCreateFile filename (GENERIC_READ OR GENERIC_WRITE)
           (FILE_SHARE_READ OR FILE_SHARE_WRITE) CREATE_NEW FILE_FLAG_OVERLAPPED]"
  using assms
  by (simp add: New_windows_def UTF16PtrFromString_def CreateFile_def CreateFileW_def Let_def
      errnoErr_def ERROR_FILE_EXISTS_def)

theorem C4_New_windows_refuses_existing_file_witness:
  "''testing'' \<in> set (wfiles (waiting 0)) \<and> CHR 0x00 \<notin> set ''testing''
   \<and> fst (New_windows ''testing'' (waiting 0)) = (0, Some (Errno ERROR_FILE_EXISTS))"
  using C4_New_windows_refuses_existing_file [of "''testing''" "waiting 0"]
  by (simp add: waiting_def)

text \<open>The blocking backend opens a path that exists, when the system lets it.\<close>

lemma New_unix_existing:
  "filename \<in> set (files w) \<Longrightarrow> open_ans w 0 = Inr fd \<Longrightarrow> fst (New_unix filename w) = (fd, None)"
  by (simp add: New_unix_def Open_def O_CREAT_def O_RDONLY_def O_EXCL_def)


end
